theory Spec2Isabelle
  imports Complex_Main "HOL-Library.Multiset"
begin

section \<open>JavaScript values used by app.js\<close>

subsection \<open>Numbers\<close>

text \<open>
  A JavaScript number is a double: a finite value, the negative zero, one of the two
  infinities, or NaN. \<open>Fin r\<close> is the finite double of the rational value \<open>r\<close>, and
  \<open>Fin 0\<close> is the positive zero. An arithmetic operation gives the double that is
  nearest to the exact result (\<open>round_double\<close>), with the sign rules of the zeros and
  the infinities.
\<close>

datatype jsnum = Fin rat | NegZero | PInf | NInf | NaN

fun is_finite :: "jsnum \<Rightarrow> bool" where
  "is_finite (Fin r) = True"
| "is_finite NegZero = True"
| "is_finite PInf = False"
| "is_finite NInf = False"
| "is_finite NaN = False"

fun rat_of :: "jsnum \<Rightarrow> rat" where
  "rat_of (Fin r) = r"
| "rat_of n = 0"

text \<open>The sign bit of a number that is not NaN.\<close>

fun negative :: "jsnum \<Rightarrow> bool" where
  "negative (Fin r) = (r < 0)"
| "negative NegZero = True"
| "negative NInf = True"
| "negative n = False"

definition is_zero :: "jsnum \<Rightarrow> bool" where
  "is_zero n = (is_finite n \<and> rat_of n = 0)"

definition signed_zero :: "bool \<Rightarrow> jsnum" where
  "signed_zero neg = (if neg then NegZero else Fin 0)"

definition signed_inf :: "bool \<Rightarrow> jsnum" where
  "signed_inf neg = (if neg then NInf else PInf)"

text \<open>
  Rounding to the binary64 format: 53 significant bits, exponents from \<open>-1022\<close> to
  \<open>1023\<close>, to the nearest value and to the even one of two nearest values. A value
  below the format becomes a zero of its sign, a value above it an infinity.
\<close>

function log2_floor :: "int \<Rightarrow> int" where
  "log2_floor n = (if n < 2 then 0 else 1 + log2_floor (n div 2))"
  by pat_completeness auto
termination
  by (relation "measure nat") auto

declare log2_floor.simps [simp del]

definition scale2 :: "rat \<Rightarrow> int \<Rightarrow> rat" where
  "scale2 x k = (if 0 \<le> k then x * 2 ^ nat k else x / 2 ^ nat (- k))"

text \<open>The exponent \<open>e\<close> with \<open>2 ^ e \<le> a < 2 ^ (e + 1)\<close>, for a positive \<open>a\<close>.\<close>

definition floor_log2 :: "rat \<Rightarrow> int" where
  "floor_log2 a =
     (let k = log2_floor (fst (quotient_of a)) - log2_floor (snd (quotient_of a))
      in if scale2 1 k \<le> a then k else k - 1)"

definition round_half_even :: "rat \<Rightarrow> int" where
  "round_half_even x =
     (let f = \<lfloor>x\<rfloor>; d = x - of_int f
      in if d < 1 / 2 then f else if 1 / 2 < d then f + 1 else if even f then f else f + 1)"

definition round_double :: "rat \<Rightarrow> jsnum" where
  "round_double r =
     (if r = 0 then Fin 0
      else
        (let e = max (floor_log2 \<bar>r\<bar>) (- 1022);
             n = round_half_even (scale2 \<bar>r\<bar> (52 - e))
         in if 1024 \<le> e then signed_inf (r < 0)
            else if e = 1023 \<and> n = 2 ^ 53 then signed_inf (r < 0)
            else if n = 0 then signed_zero (r < 0)
            else Fin (scale2 (of_int (if r < 0 then - n else n)) (e - 52))))"

fun js_neg :: "jsnum \<Rightarrow> jsnum" where
  "js_neg (Fin a) = (if a = 0 then NegZero else Fin (- a))"
| "js_neg NegZero = Fin 0"
| "js_neg PInf = NInf"
| "js_neg NInf = PInf"
| "js_neg NaN = NaN"

text \<open>
  A sum that is exactly zero is the positive zero, unless both operands are the negative
  zero; the two infinities of opposite sign add up to NaN.
\<close>

definition js_add :: "jsnum \<Rightarrow> jsnum \<Rightarrow> jsnum" where
  "js_add a b =
     (if a = NaN \<or> b = NaN then NaN
      else if is_finite a \<and> is_finite b then
        (if rat_of a + rat_of b = 0 then signed_zero (a = NegZero \<and> b = NegZero)
         else round_double (rat_of a + rat_of b))
      else if is_finite a then b
      else if is_finite b then a
      else if a = b then a
      else NaN)"

definition js_sub :: "jsnum \<Rightarrow> jsnum \<Rightarrow> jsnum" where
  "js_sub a b = js_add a (js_neg b)"

text \<open>The sign of a product or of a quotient is negative when the signs of the operands
  differ; zero times an infinity is NaN.\<close>

definition js_mul :: "jsnum \<Rightarrow> jsnum \<Rightarrow> jsnum" where
  "js_mul a b =
     (if a = NaN \<or> b = NaN then NaN
      else if is_finite a \<and> is_finite b then
        (if rat_of a * rat_of b = 0 then signed_zero (negative a \<noteq> negative b)
         else round_double (rat_of a * rat_of b))
      else if is_zero a \<or> is_zero b then NaN
      else signed_inf (negative a \<noteq> negative b))"

text \<open>
  Division never raises: a value that is not zero over a zero is an infinity, a zero over
  a zero is NaN, a finite value over an infinity is a zero, and an infinity over an
  infinity is NaN.
\<close>

definition js_div :: "jsnum \<Rightarrow> jsnum \<Rightarrow> jsnum" where
  "js_div a b =
     (if a = NaN \<or> b = NaN then NaN
      else if is_finite a \<and> is_finite b then
        (if is_zero b then (if is_zero a then NaN else signed_inf (negative a \<noteq> negative b))
         else if is_zero a then signed_zero (negative a \<noteq> negative b)
         else round_double (rat_of a / rat_of b))
      else if is_finite a then signed_zero (negative a \<noteq> negative b)
      else if is_finite b then signed_inf (negative a \<noteq> negative b)
      else NaN)"

subsection \<open>Strings and \<open>undefined\<close>\<close>

text \<open>
  The values that the queues and stacks of app.js hold: \<open>undefined\<close> (what
  \<open>pop\<close> returns on an empty stack and what a hole of an array reads as), a string,
  and the string \<open>n.toString()\<close> of a number \<open>n\<close>, which is kept symbolic:
  \<open>NumStr n\<close> is never one of the tokens the code compares with. \<open>parseFloat\<close>
  reads \<open>n\<close> back from it, except that the string of the negative zero is \<open>0\<close>, which
  reads as the positive zero. Characters are the 8-bit characters of HOL.
\<close>

datatype jsval = Undefined | Str string | NumStr jsnum

subsection \<open>The built-ins \<open>isNaN\<close> and \<open>parseFloat\<close>\<close>

definition is_digit :: "char \<Rightarrow> bool" where
  "is_digit c = (c \<in> set ''0123456789'')"

text \<open>White space and line terminators among the 8-bit characters: TAB, LF, VT, FF, CR,
  SP and NBSP.\<close>

definition is_white :: "char \<Rightarrow> bool" where
  "is_white c = ((of_char c :: nat) \<in> {9, 10, 11, 12, 13, 32, 160})"

definition trim :: "string \<Rightarrow> string" where
  "trim cs = rev (dropWhile is_white (rev (dropWhile is_white cs)))"

definition strip_sign :: "string \<Rightarrow> string" where
  "strip_sign cs = (case cs of [] \<Rightarrow> []
     | c # r \<Rightarrow> if c = CHR ''+'' \<or> c = CHR ''-'' then r else cs)"

definition is_negative :: "string \<Rightarrow> bool" where
  "is_negative cs = (case cs of [] \<Rightarrow> False | c # r \<Rightarrow> c = CHR ''-'')"

text \<open>An exponent part: \<open>e\<close> or \<open>E\<close>, an optional sign, at least one digit.\<close>

definition is_exponent :: "string \<Rightarrow> bool" where
  "is_exponent cs = (case cs of [] \<Rightarrow> False
     | c # r \<Rightarrow> (c = CHR ''e'' \<or> c = CHR ''E'') \<and> strip_sign r \<noteq> [] \<and>
         list_all is_digit (strip_sign r))"

definition is_unsigned_decimal :: "string \<Rightarrow> bool" where
  "is_unsigned_decimal cs = (cs = ''Infinity'' \<or>
     (let ip = takeWhile is_digit cs; r = dropWhile is_digit cs in
      case r of [] \<Rightarrow> ip \<noteq> []
      | c # r' \<Rightarrow>
          if c = CHR ''.'' then
            (let fp = takeWhile is_digit r'; r2 = dropWhile is_digit r' in
             (ip \<noteq> [] \<or> fp \<noteq> []) \<and> (r2 = [] \<or> is_exponent r2))
          else ip \<noteq> [] \<and> is_exponent r))"

text \<open>\<open>0x\<close>, \<open>0o\<close> and \<open>0b\<close> literals (\<open>Number\<close> accepts them, unsigned).\<close>

definition is_radix_literal :: "string \<Rightarrow> bool" where
  "is_radix_literal cs = (case cs of
       z # x # ds \<Rightarrow> z = CHR ''0'' \<and> ds \<noteq> [] \<and>
         ((x \<in> set ''xX'' \<and> list_all (\<lambda>c. c \<in> set ''0123456789abcdefABCDEF'') ds) \<or>
          (x \<in> set ''oO'' \<and> list_all (\<lambda>c. c \<in> set ''01234567'') ds) \<or>
          (x \<in> set ''bB'' \<and> list_all (\<lambda>c. c \<in> set ''01'') ds))
     | _ \<Rightarrow> False)"

text \<open>\<open>Number(cs)\<close> is not NaN: the trimmed string is empty (the value is 0) or a
  numeric literal.\<close>

definition is_numeric :: "string \<Rightarrow> bool" where
  "is_numeric cs = (let t = trim cs in
     t = [] \<or> is_unsigned_decimal (strip_sign t) \<or> is_radix_literal t)"

text \<open>\<open>isNaN(v)\<close> converts \<open>v\<close> with \<open>Number\<close> first: \<open>undefined\<close> becomes
  NaN.\<close>

fun isNaN :: "jsval \<Rightarrow> bool" where
  "isNaN Undefined = True"
| "isNaN (Str cs) = (\<not> is_numeric cs)"
| "isNaN (NumStr n) = (n = NaN)"

definition digits_value :: "string \<Rightarrow> int" where
  "digits_value ds = fold (\<lambda>c n. 10 * n + (of_char c - 48)) ds 0"

text \<open>The exponent that \<open>parseFloat\<close> reads at the start of a string, 0 when there is
  no complete exponent part.\<close>

definition exponent_value :: "string \<Rightarrow> int" where
  "exponent_value cs = (case cs of [] \<Rightarrow> 0
     | c # r \<Rightarrow>
         if c = CHR ''e'' \<or> c = CHR ''E'' then
           (let ds = takeWhile is_digit (strip_sign r) in
            if is_negative r then - digits_value ds else digits_value ds)
         else 0)"

definition scale10 :: "rat \<Rightarrow> int \<Rightarrow> rat" where
  "scale10 x e = (if 0 \<le> e then x * 10 ^ nat e else x / 10 ^ nat (- e))"

text \<open>
  \<open>parseFloat\<close> of a string skips leading white space and reads the longest prefix that
  is a decimal literal, as the double nearest to its value; with no such prefix the
  result is NaN.
\<close>

definition parseFloat_string :: "string \<Rightarrow> jsnum" where
  "parseFloat_string cs =
     (let t = dropWhile is_white cs; u = strip_sign t in
      if take 8 u = ''Infinity'' then signed_inf (is_negative t)
      else
        (let ip = takeWhile is_digit u; r = dropWhile is_digit u;
             dot = (r \<noteq> [] \<and> hd r = CHR ''.'');
             fp = (if dot then takeWhile is_digit (tl r) else []);
             r2 = (if dot then dropWhile is_digit (tl r) else r);
             m = scale10 (of_int (digits_value ip) + of_int (digits_value fp) / 10 ^ length fp)
                   (exponent_value r2)
         in if ip = [] \<and> fp = [] then NaN
            else if m = 0 then signed_zero (is_negative t)
            else round_double (if is_negative t then - m else m)))"

fun parseFloat :: "jsval \<Rightarrow> jsnum" where
  "parseFloat Undefined = NaN"
| "parseFloat (Str cs) = parseFloat_string cs"
| "parseFloat (NumStr n) = (if n = NegZero then Fin 0 else n)"

section \<open>The containers \<open>Stack\<close> and \<open>Queue\<close>\<close>

text \<open>
  Both wrap an array. A stack is the list of its array from the last element (the top)
  to the first; a queue is the list of its array from the first element (the front) on.
  \<open>pop\<close> and \<open>dequeue\<close> return \<open>undefined\<close> on an empty container and leave it
  empty; \<open>peek\<close> reads index \<open>-1\<close> of an empty array, which is \<open>undefined\<close>.
\<close>

type_synonym stack = "jsval list"
type_synonym queue = "jsval list"

definition push :: "stack \<Rightarrow> jsval \<Rightarrow> stack" where
  "push xs v = v # xs"

fun pop :: "stack \<Rightarrow> jsval \<times> stack" where
  "pop [] = (Undefined, [])"
| "pop (v # xs) = (v, xs)"

fun peek :: "stack \<Rightarrow> jsval" where
  "peek [] = Undefined"
| "peek (v # xs) = v"

definition isEmpty :: "jsval list \<Rightarrow> bool" where
  "isEmpty xs = (length xs = 0)"

definition enqueue :: "queue \<Rightarrow> jsval \<Rightarrow> queue" where
  "enqueue xs v = xs @ [v]"

fun dequeue :: "queue \<Rightarrow> jsval \<times> queue" where
  "dequeue [] = (Undefined, [])"
| "dequeue (v # xs) = (v, xs)"

section \<open>The class \<open>ShuntingYard\<close>\<close>

record shunting_yard =
  stream :: queue
  q :: queue
  s :: stack

definition constructor :: shunting_yard where
  "constructor = \<lparr>stream = [], q = [], s = []\<rparr>"

definition clear :: "shunting_yard \<Rightarrow> shunting_yard" where
  "clear sy = sy\<lparr>q := [], s := []\<rparr>"

subsection \<open>\<open>makeString\<close>\<close>

datatype error = TypeError

text \<open>Reading and writing the array \<open>temp\<close>: an index beyond the end reads as
  \<open>undefined\<close>, and a write beyond the end extends the array, leaving holes.\<close>

definition array_get :: "jsval list \<Rightarrow> nat \<Rightarrow> jsval" where
  "array_get xs i = (if i < length xs then xs ! i else Undefined)"

definition array_set :: "jsval list \<Rightarrow> nat \<Rightarrow> jsval \<Rightarrow> jsval list" where
  "array_set xs i v =
     (if i < length xs then xs[i := v] else xs @ replicate (i - length xs) Undefined @ [v])"

text \<open>\<open>x.concat(token)\<close>: a TypeError when \<open>x\<close> is \<open>undefined\<close>.\<close>

fun concat_char :: "jsval \<Rightarrow> char \<Rightarrow> error + jsval" where
  "concat_char (Str b) c = Inr (Str (b @ [c]))"
| "concat_char v c = Inl TypeError"

text \<open>The second loop of \<open>makeString\<close>, over the characters of the input.\<close>

fun scan :: "string \<Rightarrow> jsval list \<Rightarrow> nat \<Rightarrow> error + jsval list" where
  "scan [] temp tempIndex = Inr temp"
| "scan (c # cs) temp tempIndex =
     (if \<not> isNaN (Str [c]) then
        (case concat_char (array_get temp tempIndex) c of
           Inl e \<Rightarrow> Inl e
         | Inr v \<Rightarrow> scan cs (array_set temp tempIndex v) tempIndex)
      else scan cs (array_set temp (tempIndex + 1) (Str [c])) (tempIndex + 2))"

text \<open>The third loop: every entry of \<open>temp\<close> that is not the empty string goes to the
  stream.\<close>

fun enqueue_all :: "queue \<Rightarrow> jsval list \<Rightarrow> queue" where
  "enqueue_all qu [] = qu"
| "enqueue_all qu (token # temp) =
     enqueue_all (if token \<noteq> Str [] then enqueue qu token else qu) temp"

definition makeString :: "shunting_yard \<Rightarrow> string \<Rightarrow> error + shunting_yard" where
  "makeString sy input =
     (case scan input (replicate (length input) (Str [])) 0 of
        Inl e \<Rightarrow> Inl e
      | Inr temp \<Rightarrow> Inr (sy\<lparr>stream := enqueue_all (stream sy) temp\<rparr>))"

subsection \<open>\<open>getPrecedence\<close> and \<open>compute_infix\<close>\<close>

definition getPrecedence :: "jsval \<Rightarrow> int" where
  "getPrecedence op =
     (if op = Str ''+'' \<or> op = Str ''-'' then 1
      else if op = Str ''*'' \<or> op = Str ''/'' then 2
      else - 1)"

text \<open>
  The loop of line 137, \<open>while (this.s.peek() !== "(") this.q.enqueue(this.s.pop())\<close>.
  It does not test the stack for emptiness, so it need not end: the result is \<open>None\<close>
  when it runs forever.
\<close>

partial_function (option) pop_to_paren :: "queue \<Rightarrow> stack \<Rightarrow> (queue \<times> stack) option" where
  "pop_to_paren out ops =
     (if peek ops \<noteq> Str ''(''
      then pop_to_paren (enqueue out (fst (pop ops))) (snd (pop ops))
      else Some (out, ops))"

declare pop_to_paren.simps [code]

text \<open>The loop of line 141, for an operator token \<open>t\<close>.\<close>

fun pop_higher :: "jsval \<Rightarrow> queue \<Rightarrow> stack \<Rightarrow> queue \<times> stack" where
  "pop_higher t out [] = (out, [])"
| "pop_higher t out (v # ops) =
     (if getPrecedence t \<le> getPrecedence (peek (v # ops))
      then pop_higher t (enqueue out (fst (pop (v # ops)))) (snd (pop (v # ops)))
      else (out, v # ops))"

text \<open>The main loop, over the tokens of the stream.\<close>

fun convert :: "queue \<Rightarrow> queue \<Rightarrow> stack \<Rightarrow> (queue \<times> stack) option" where
  "convert [] out ops = Some (out, ops)"
| "convert (t # ts) out ops =
     (if \<not> isNaN t then convert ts (enqueue out t) ops
      else if t = Str ''('' then convert ts out (push ops t)
      else if t = Str '')'' then
        (case pop_to_paren out ops of
           None \<Rightarrow> None
         | Some (out', ops') \<Rightarrow> convert ts out' (snd (pop ops')))
      else
        (case pop_higher t out ops of
           (out', ops') \<Rightarrow> convert ts out' (push ops' t)))"

text \<open>The loop of line 145 empties the stack into the output.\<close>

fun drain :: "queue \<Rightarrow> stack \<Rightarrow> queue" where
  "drain out [] = out"
| "drain out (v # ops) = drain (enqueue out (fst (pop (v # ops)))) (snd (pop (v # ops)))"

definition compute_infix :: "shunting_yard \<Rightarrow> shunting_yard option" where
  "compute_infix sy =
     (case convert (stream sy) (q sy) (s sy) of
        None \<Rightarrow> None
      | Some (out, ops) \<Rightarrow> Some \<lparr>stream = [], q = drain out ops, s = []\<rparr>)"

subsection \<open>\<open>compute_rpn\<close>\<close>

text \<open>The \<open>switch\<close>: a token that is none of the four operators pushes nothing.\<close>

definition apply_operator :: "jsval \<Rightarrow> jsnum \<Rightarrow> jsnum \<Rightarrow> stack \<Rightarrow> stack" where
  "apply_operator t a b stack =
     (if t = Str ''-'' then push stack (NumStr (js_sub a b))
      else if t = Str ''+'' then push stack (NumStr (js_add a b))
      else if t = Str ''*'' then push stack (NumStr (js_mul a b))
      else if t = Str ''/'' then push stack (NumStr (js_div a b))
      else stack)"

fun evaluate :: "queue \<Rightarrow> stack \<Rightarrow> stack" where
  "evaluate [] stack = stack"
| "evaluate (t # ts) stack =
     (if \<not> isNaN t then evaluate ts (push stack t)
      else
        (let b = parseFloat (fst (pop stack));
             stack1 = snd (pop stack);
             a = parseFloat (fst (pop stack1));
             stack2 = snd (pop stack1)
         in evaluate ts (apply_operator t a b stack2)))"

definition compute_rpn :: "shunting_yard \<Rightarrow> jsnum \<times> shunting_yard" where
  "compute_rpn sy = (parseFloat (fst (pop (evaluate (q sy) []))), sy\<lparr>q := []\<rparr>)"

text \<open>
  The loop of \<open>compute_rpn\<close> once more, as the \<open>while\<close> loop on the queue that it is,
  with \<open>None\<close> for a loop that does not end. That it ends on every queue, with the
  stack of \<open>evaluate\<close>, is proved below.
\<close>

partial_function (option) rpn_loop :: "queue \<Rightarrow> stack \<Rightarrow> stack option" where
  "rpn_loop qu stack =
     (if \<not> isEmpty qu then
        (if \<not> isNaN (fst (dequeue qu)) then
           rpn_loop (snd (dequeue qu)) (push stack (fst (dequeue qu)))
         else
           rpn_loop (snd (dequeue qu))
             (apply_operator (fst (dequeue qu))
                (parseFloat (fst (pop (snd (pop stack)))))
                (parseFloat (fst (pop stack)))
                (snd (pop (snd (pop stack))))))
      else Some stack)"

declare rpn_loop.simps [code]

text \<open>
  The height of the operand stack after the tokens of a queue, from the height \<open>h\<close>: a
  number token adds a value, every other token takes two values, or as many as there
  are, and one of the four operators adds its result.
\<close>

fun operand_height :: "queue \<Rightarrow> nat \<Rightarrow> nat" where
  "operand_height [] h = h"
| "operand_height (t # ts) h =
     (if \<not> isNaN t then operand_height ts (h + 1)
      else if t \<in> {Str ''+'', Str ''-'', Str ''*'', Str ''/''} then operand_height ts (h - 2 + 1)
      else operand_height ts (h - 2))"

subsection \<open>\<open>calculate\<close>\<close>

text \<open>
  The function \<open>calculate\<close> of the page, on the calculator and the text of the screen:
  \<open>None\<close> when it does not return, \<open>Inl\<close> the exception it throws, \<open>Inr\<close> the
  number whose string becomes the new text, with the calculator after \<open>clear\<close>.
\<close>

definition calculate :: "shunting_yard \<Rightarrow> string \<Rightarrow> (error + jsnum \<times> shunting_yard) option" where
  "calculate sy output =
     (case makeString sy output of
        Inl e \<Rightarrow> Some (Inl e)
      | Inr sy1 \<Rightarrow>
          (case compute_infix sy1 of
             None \<Rightarrow> None
           | Some sy2 \<Rightarrow>
               (case compute_rpn sy2 of (r, sy3) \<Rightarrow> Some (Inr (r, clear sy3)))))"

section \<open>Infix expressions and their reference value\<close>

text \<open>
  A number token is a non-empty string of decimal digits. A well-formed infix expression
  is a sum or difference of terms, a term a product or quotient of factors, a factor a
  number or an expression in parentheses. The grammar makes \<open>*\<close> and \<open>/\<close> bind tighter
  than \<open>+\<close> and \<open>-\<close>, and operators of one level group to the left.
\<close>

definition is_number :: "string \<Rightarrow> bool" where
  "is_number n = (n \<noteq> [] \<and> list_all is_digit n)"

datatype expr = Single mterm | Add expr mterm | Sub expr mterm
and mterm = Atom factor | Mul mterm factor | Div mterm factor
and factor = Lit string | Paren expr

text \<open>The token sequence of an expression.\<close>

fun tokens_e :: "expr \<Rightarrow> queue"
  and tokens_t :: "mterm \<Rightarrow> queue"
  and tokens_f :: "factor \<Rightarrow> queue" where
  "tokens_e (Single t) = tokens_t t"
| "tokens_e (Add e t) = tokens_e e @ [Str ''+''] @ tokens_t t"
| "tokens_e (Sub e t) = tokens_e e @ [Str ''-''] @ tokens_t t"
| "tokens_t (Atom f) = tokens_f f"
| "tokens_t (Mul t f) = tokens_t t @ [Str ''*''] @ tokens_f f"
| "tokens_t (Div t f) = tokens_t t @ [Str ''/''] @ tokens_f f"
| "tokens_f (Lit n) = [Str n]"
| "tokens_f (Paren e) = [Str ''(''] @ tokens_e e @ [Str '')'']"

text \<open>Every literal is a number token.\<close>

fun wf_e :: "expr \<Rightarrow> bool"
  and wf_t :: "mterm \<Rightarrow> bool"
  and wf_f :: "factor \<Rightarrow> bool" where
  "wf_e (Single t) = wf_t t"
| "wf_e (Add e t) = (wf_e e \<and> wf_t t)"
| "wf_e (Sub e t) = (wf_e e \<and> wf_t t)"
| "wf_t (Atom f) = wf_f f"
| "wf_t (Mul t f) = (wf_t t \<and> wf_f f)"
| "wf_t (Div t f) = (wf_t t \<and> wf_f f)"
| "wf_f (Lit n) = is_number n"
| "wf_f (Paren e) = wf_e e"

text \<open>
  The reference evaluator, in floating-point arithmetic: the value of a number token is
  the double nearest to its decimal value, and an operator is applied to the values of
  its two operands. A subtraction or a product may be the negative zero, which the
  reference evaluator keeps.
\<close>

fun value_e :: "expr \<Rightarrow> jsnum"
  and value_t :: "mterm \<Rightarrow> jsnum"
  and value_f :: "factor \<Rightarrow> jsnum" where
  "value_e (Single t) = value_t t"
| "value_e (Add e t) = js_add (value_e e) (value_t t)"
| "value_e (Sub e t) = js_sub (value_e e) (value_t t)"
| "value_t (Atom f) = value_f f"
| "value_t (Mul t f) = js_mul (value_t t) (value_f f)"
| "value_t (Div t f) = js_div (value_t t) (value_f f)"
| "value_f (Lit n) = round_double (of_int (digits_value n))"
| "value_f (Paren e) = value_e e"

text \<open>No operation of the reference evaluation of the expression gives the negative
  zero.\<close>

fun no_negative_zero_e :: "expr \<Rightarrow> bool"
  and no_negative_zero_t :: "mterm \<Rightarrow> bool"
  and no_negative_zero_f :: "factor \<Rightarrow> bool" where
  "no_negative_zero_e (Single t) = no_negative_zero_t t"
| "no_negative_zero_e (Add e t) =
     (no_negative_zero_e e \<and> no_negative_zero_t t \<and> value_e (Add e t) \<noteq> NegZero)"
| "no_negative_zero_e (Sub e t) =
     (no_negative_zero_e e \<and> no_negative_zero_t t \<and> value_e (Sub e t) \<noteq> NegZero)"
| "no_negative_zero_t (Atom f) = no_negative_zero_f f"
| "no_negative_zero_t (Mul t f) =
     (no_negative_zero_t t \<and> no_negative_zero_f f \<and> value_t (Mul t f) \<noteq> NegZero)"
| "no_negative_zero_t (Div t f) =
     (no_negative_zero_t t \<and> no_negative_zero_f f \<and> value_t (Div t f) \<noteq> NegZero)"
| "no_negative_zero_f (Lit n) = True"
| "no_negative_zero_f (Paren e) = no_negative_zero_e e"

text \<open>The postfix sequence of an expression.\<close>

fun postfix_e :: "expr \<Rightarrow> queue"
  and postfix_t :: "mterm \<Rightarrow> queue"
  and postfix_f :: "factor \<Rightarrow> queue" where
  "postfix_e (Single t) = postfix_t t"
| "postfix_e (Add e t) = postfix_e e @ postfix_t t @ [Str ''+'']"
| "postfix_e (Sub e t) = postfix_e e @ postfix_t t @ [Str ''-'']"
| "postfix_t (Atom f) = postfix_f f"
| "postfix_t (Mul t f) = postfix_t t @ postfix_f f @ [Str ''*'']"
| "postfix_t (Div t f) = postfix_t t @ postfix_f f @ [Str ''/'']"
| "postfix_f (Lit n) = [Str n]"
| "postfix_f (Paren e) = postfix_e e"

text \<open>
  When the converter has read the tokens of a term or of an expression, the last
  operator of each level is still on the stack (\<open>pending\<close>) and the rest of the postfix
  sequence is in the output (\<open>emitted\<close>).
\<close>

fun pending_t :: "mterm \<Rightarrow> stack" where
  "pending_t (Atom f) = []"
| "pending_t (Mul t f) = [Str ''*'']"
| "pending_t (Div t f) = [Str ''/'']"

fun pending_e :: "expr \<Rightarrow> stack" where
  "pending_e (Single t) = pending_t t"
| "pending_e (Add e t) = pending_t t @ [Str ''+'']"
| "pending_e (Sub e t) = pending_t t @ [Str ''-'']"

fun emitted_t :: "mterm \<Rightarrow> queue" where
  "emitted_t (Atom f) = postfix_f f"
| "emitted_t (Mul t f) = postfix_t t @ postfix_f f"
| "emitted_t (Div t f) = postfix_t t @ postfix_f f"

fun emitted_e :: "expr \<Rightarrow> queue" where
  "emitted_e (Single t) = emitted_t t"
| "emitted_e (Add e t) = postfix_e e @ emitted_t t"
| "emitted_e (Sub e t) = postfix_e e @ emitted_t t"

text \<open>The stack is empty or its top has a precedence below \<open>p\<close>, so the loop of line 141
  stops there for an operator of precedence \<open>p\<close>.\<close>

definition below :: "int \<Rightarrow> stack \<Rightarrow> bool" where
  "below p ops = (case ops of [] \<Rightarrow> True | v # r \<Rightarrow> getPrecedence v < p)"

subsection \<open>Token sequences with unclosed parentheses\<close>

text \<open>A token of an expression: a token that \<open>isNaN\<close> takes for a number, one of the four
  operators, or a parenthesis.\<close>

definition valid_token :: "jsval \<Rightarrow> bool" where
  "valid_token t =
     (\<not> isNaN t \<or> t \<in> {Str ''+'', Str ''-'', Str ''*'', Str ''/'', Str ''('', Str '')''})"

text \<open>Every \<open>)\<close> of the sequence closes a \<open>(\<close>, when \<open>d\<close> of them are open at the
  start; some \<open>(\<close> may stay open.\<close>

fun matched :: "queue \<Rightarrow> nat \<Rightarrow> bool" where
  "matched [] d = True"
| "matched (t # ts) d =
     (if t = Str ''('' then matched ts (d + 1)
      else if t = Str '')'' then 0 < d \<and> matched ts (d - 1)
      else matched ts d)"

abbreviation lparens :: "jsval list \<Rightarrow> nat" where
  "lparens xs \<equiv> count_list xs (Str ''('')"

section \<open>Facts about the built-ins and the loops\<close>

text \<open>Rounding at work: an integer below \<open>2 ^ 53\<close> is a double, a third is not, and
  \<open>2 ^ 53 + 1\<close> lies between two doubles and goes to the even one.\<close>

lemma round_double_examples:
  "round_double 21 = Fin 21"
  "round_double (1 / 3) = Fin (6004799503160661 / 18014398509481984)"
  "round_double 9007199254740993 = Fin 9007199254740992"
  "round_double 9007199254740995 = Fin 9007199254740996"
  by code_simp+

text \<open>The zeros: a product of a zero and a negative value is the negative zero, whose
  string reads back as the positive zero.\<close>

lemma negative_zero_examples:
  "js_mul (Fin 0) (Fin (- 1)) = NegZero" "js_div (Fin 1) NegZero = NInf"
  "js_sub (Fin 0) (Fin 0) = Fin 0" "parseFloat (NumStr NegZero) = Fin 0"
  by code_simp+

lemma NaN_operand:
  "js_add NaN b = NaN" "js_sub NaN b = NaN" "js_mul NaN b = NaN" "js_div NaN b = NaN"
  by (simp_all add: js_add_def js_sub_def js_mul_def js_div_def)

lemma isNaN_operators:
  "isNaN (Str ''+'')" "isNaN (Str ''-'')" "isNaN (Str ''*'')" "isNaN (Str ''/'')"
  "isNaN (Str ''('')" "isNaN (Str '')'')"
  by code_simp+

text \<open>On an empty stack the loop of line 137 never ends: \<open>peek\<close> is \<open>undefined\<close>, which
  is not \<open>(\<close>, and \<open>pop\<close> leaves the stack empty.\<close>

lemma pop_to_paren_returns_nonempty: "pop_to_paren out ops = Some r \<Longrightarrow> ops \<noteq> []"
proof (rule pop_to_paren.raw_induct [where P = "\<lambda>out ops r. ops \<noteq> []"])
  fix f :: "queue \<Rightarrow> stack \<Rightarrow> (queue \<times> stack) option" and out ops r
  assume IH: "\<And>a b y. f a b = Some y \<Longrightarrow> b \<noteq> []"
    and step: "(if peek ops \<noteq> Str ''('' then f (enqueue out (fst (pop ops))) (snd (pop ops))
                else Some (out, ops)) = Some r"
  show "ops \<noteq> []"
  proof
    assume "ops = []"
    with step have "f (enqueue out Undefined) [] = Some r" by simp
    from IH [OF this] show False by simp
  qed
qed

lemma pop_to_paren_Nil: "pop_to_paren out [] = None"
  using pop_to_paren_returns_nonempty [of out "[]"] by (cases "pop_to_paren out []") auto

lemma pop_to_paren_Cons:
  "pop_to_paren out (v # ops) =
     (if v \<noteq> Str ''('' then pop_to_paren (out @ [v]) ops else Some (out, v # ops))"
  by (subst pop_to_paren.simps) (simp add: enqueue_def)

lemma makeString_rparen:
  "makeString constructor '')'' = Inr \<lparr>stream = [Str '')''], q = [], s = []\<rparr>"
  by code_simp


lemma drain_append: "drain out ops = out @ ops"
  by (induction ops arbitrary: out) (simp_all add: enqueue_def)

subsection \<open>The tokenizer\<close>

lemma array_get_set: "array_get (array_set xs j v) i = (if i = j then v else array_get xs i)"
  by (auto simp: array_get_def array_set_def nth_append nth_Cons')

text \<open>The scan never writes below \<open>tempIndex\<close>.\<close>

lemma scan_keeps:
  "scan cs temp ti = Inr temp' \<Longrightarrow> i < ti \<Longrightarrow> array_get temp' i = array_get temp i"
proof (induction cs arbitrary: temp ti)
  case Nil
  then show ?case by simp
next
  case (Cons c cs)
  show ?case
  proof (cases "isNaN (Str [c])")
    case True
    with Cons.prems have "scan cs (array_set temp (ti + 1) (Str [c])) (ti + 2) = Inr temp'"
      by simp
    from Cons.IH [OF this] Cons.prems(2) show ?thesis
      by (simp add: array_get_set)
  next
    case False
    with Cons.prems obtain v where
      "scan cs (array_set temp ti v) ti = Inr temp'"
      by (auto split: sum.splits)
    from Cons.IH [OF this Cons.prems(2)] Cons.prems(2) show ?thesis
      by (simp add: array_get_set)
  qed
qed

lemma scan_operator_token:
  "scan cs temp ti = Inr temp' \<Longrightarrow> c \<in> set cs \<Longrightarrow> isNaN (Str [c]) \<Longrightarrow>
   \<exists>i. array_get temp' i = Str [c]"
proof (induction cs arbitrary: temp ti)
  case Nil
  then show ?case by simp
next
  case (Cons x cs)
  show ?case
  proof (cases "x = c")
    case True
    with Cons.prems have "scan cs (array_set temp (ti + 1) (Str [c])) (ti + 2) = Inr temp'"
      by simp
    from scan_keeps [OF this, of "ti + 1"] have "array_get temp' (ti + 1) = Str [c]"
      by (simp add: array_get_set)
    then show ?thesis ..
  next
    case False
    with Cons.prems have mem: "c \<in> set cs" by simp
    from Cons.prems(1) obtain temp1 ti1 where "scan cs temp1 ti1 = Inr temp'"
      by (auto split: sum.splits if_splits)
    from Cons.IH [OF this mem Cons.prems(3)] show ?thesis .
  qed
qed

text \<open>
  A digit that comes after \<open>k\<close> other characters is appended to \<open>temp[2k]\<close>, which
  is \<open>undefined\<close> when \<open>2k\<close> is not below the length of the input: the tokenizer
  throws a TypeError there.
\<close>

lemma makeString_TypeError:
  "makeString constructor ''(2+3)*4'' = Inl TypeError"
  "makeString constructor ''+1'' = Inl TypeError"
  "makeString constructor ''(1+2'' = Inl TypeError"
  by code_simp+

lemma set_enqueue_all: "set (enqueue_all qu temp) = set qu \<union> (set temp - {Str []})"
  by (induction temp arbitrary: qu) (auto simp: enqueue_def)

subsection \<open>Number tokens\<close>

lemma digit_not_white: "is_digit c \<Longrightarrow> \<not> is_white c"
  by (auto simp: is_digit_def is_white_def)

lemma digit_not_sign: "is_digit c \<Longrightarrow> c \<noteq> CHR ''+'' \<and> c \<noteq> CHR ''-'' \<and> c \<noteq> CHR ''I''"
  by (auto simp: is_digit_def)

lemma number_facts:
  assumes "is_number n"
  shows "takeWhile is_digit n = n" "dropWhile is_digit n = []" "dropWhile is_white n = n"
    "trim n = n" "strip_sign n = n" "\<not> is_negative n" "take 8 n \<noteq> ''Infinity''"
proof -
  from assms obtain c cs where n: "n = c # cs" and c: "is_digit c"
    and all: "\<forall>x \<in> set n. is_digit x"
    by (cases n) (auto simp: is_number_def list_all_iff)
  from all show "takeWhile is_digit n = n" by simp
  from all show "dropWhile is_digit n = []" by simp
  from n c show w: "dropWhile is_white n = n" by (simp add: digit_not_white)
  from assms have "is_digit (last n)" by (simp add: is_number_def list_all_iff)
  then have "dropWhile is_white (rev n) = rev n"
    using assms
    by (cases "rev n") (auto simp: is_number_def digit_not_white last_rev hd_rev [symmetric])
  with w show "trim n = n" by (simp add: trim_def)
  from n c show "strip_sign n = n" by (auto simp: strip_sign_def dest: digit_not_sign)
  from n c show "\<not> is_negative n" by (auto simp: is_negative_def dest: digit_not_sign)
  from n c show "take 8 n \<noteq> ''Infinity''" by (auto dest: digit_not_sign)
qed

lemma number_not_NaN: "is_number n \<Longrightarrow> \<not> isNaN (Str n)"
  by (simp add: is_numeric_def is_unsigned_decimal_def number_facts Let_def)

lemma round_double_0: "round_double 0 = Fin 0"
  by (simp add: round_double_def)

lemma parseFloat_number:
  "is_number n \<Longrightarrow> parseFloat (Str n) = round_double (of_int (digits_value n))"
proof -
  assume n: "is_number n"
  have d: "digits_value [] = 0" by (simp add: digits_value_def)
  from n have "n \<noteq> []" by (simp add: is_number_def)
  with n show ?thesis
    by (simp add: parseFloat_string_def number_facts Let_def exponent_value_def scale10_def
        signed_zero_def d) (metis round_double_0)
qed

lemma parseFloat_NumStr: "n \<noteq> NegZero \<Longrightarrow> parseFloat (NumStr n) = n"
  by simp

subsection \<open>The converter on a well-formed expression\<close>

lemma postfix_t_split: "postfix_t t = emitted_t t @ pending_t t"
  by (cases t) simp_all

lemma postfix_e_split: "postfix_e e = emitted_e e @ pending_e e"
  by (cases e) (simp_all add: postfix_t_split)

lemma pop_higher_pending:
  "\<forall>v \<in> set pend. getPrecedence t \<le> getPrecedence v \<Longrightarrow> below (getPrecedence t) ops \<Longrightarrow>
   pop_higher t out (pend @ ops) = (out @ pend, ops)"
proof (induction pend arbitrary: out)
  case Nil
  then show ?case by (cases ops) (auto simp: below_def)
next
  case (Cons v pend)
  then show ?case by (simp add: enqueue_def)
qed

lemma pop_to_paren_pending:
  "Str ''('' \<notin> set pend \<Longrightarrow>
   pop_to_paren out (pend @ Str ''('' # ops) = Some (out @ pend, Str ''('' # ops)"
  by (induction pend arbitrary: out) (auto simp: pop_to_paren_Cons)

lemma pending_t_operators: "set (pending_t t) \<subseteq> {Str ''*'', Str ''/''}"
  by (cases t) auto

lemma pending_e_operators: "set (pending_e e) \<subseteq> {Str ''+'', Str ''-'', Str ''*'', Str ''/''}"
  using pending_t_operators by (cases e) fastforce+

lemma prec_pending_t: "v \<in> set (pending_t t) \<Longrightarrow> getPrecedence v = 2"
  using pending_t_operators [of t] by (auto simp: getPrecedence_def)

lemma prec_pending_e: "v \<in> set (pending_e e) \<Longrightarrow> 1 \<le> getPrecedence v"
  using pending_e_operators [of e] by (auto simp: getPrecedence_def)

lemma convert_number: "is_number n \<Longrightarrow> convert (Str n # ts) out ops = convert ts (out @ [Str n]) ops"
  using number_not_NaN [of n] by (simp add: enqueue_def del: isNaN.simps)

lemma convert_lparen: "convert (Str ''('' # ts) out ops = convert ts out (Str ''('' # ops)"
  by (simp add: isNaN_operators push_def del: isNaN.simps)

lemma convert_rparen:
  "Str ''('' \<notin> set pend \<Longrightarrow>
   convert (Str '')'' # ts) out (pend @ Str ''('' # ops) = convert ts (out @ pend) ops"
  by (simp add: isNaN_operators pop_to_paren_pending del: isNaN.simps)

lemma convert_operator:
  "t \<in> {Str ''+'', Str ''-'', Str ''*'', Str ''/''} \<Longrightarrow>
   \<forall>v \<in> set pend. getPrecedence t \<le> getPrecedence v \<Longrightarrow> below (getPrecedence t) ops \<Longrightarrow>
   convert (t # ts) out (pend @ ops) = convert ts (out @ pend) (t # ops)"
  using isNaN_operators
  by (auto simp: pop_higher_pending push_def simp del: isNaN.simps)

lemma convert_expression:
  "wf_e e \<Longrightarrow> below 1 ops \<Longrightarrow>
     convert (tokens_e e @ ts) out ops = convert ts (out @ emitted_e e) (pending_e e @ ops)"
  "wf_t t \<Longrightarrow> below 2 ops \<Longrightarrow>
     convert (tokens_t t @ ts) out ops = convert ts (out @ emitted_t t) (pending_t t @ ops)"
  "wf_f f \<Longrightarrow> convert (tokens_f f @ ts) out ops = convert ts (out @ postfix_f f) ops"
proof (induction e and t and f arbitrary: ts out ops and ts out ops and ts out ops)
  case (Single t)
  then show ?case by (cases ops) (auto simp: below_def)
next
  case (Add e t)
  have b: "below 2 (Str ''+'' # ops)" by (simp add: below_def getPrecedence_def)
  have "convert (tokens_e (Add e t) @ ts) out ops =
        convert (Str ''+'' # tokens_t t @ ts) (out @ emitted_e e) (pending_e e @ ops)"
    using Add.IH(1) [of ops "Str ''+'' # tokens_t t @ ts" out] Add.prems by simp
  also have "\<dots> = convert (tokens_t t @ ts) (out @ postfix_e e) (Str ''+'' # ops)"
    using Add.prems(2) prec_pending_e [of _ e]
    by (subst convert_operator) (auto simp: postfix_e_split getPrecedence_def)
  also have "\<dots> = convert ts (out @ postfix_e e @ emitted_t t) (pending_t t @ Str ''+'' # ops)"
    using Add.IH(2) [OF _ b, of ts "out @ postfix_e e"] Add.prems by simp
  finally show ?case by simp
next
  case (Sub e t)
  have b: "below 2 (Str ''-'' # ops)" by (simp add: below_def getPrecedence_def)
  have "convert (tokens_e (Sub e t) @ ts) out ops =
        convert (Str ''-'' # tokens_t t @ ts) (out @ emitted_e e) (pending_e e @ ops)"
    using Sub.IH(1) [of ops "Str ''-'' # tokens_t t @ ts" out] Sub.prems by simp
  also have "\<dots> = convert (tokens_t t @ ts) (out @ postfix_e e) (Str ''-'' # ops)"
    using Sub.prems(2) prec_pending_e [of _ e]
    by (subst convert_operator) (auto simp: postfix_e_split getPrecedence_def)
  also have "\<dots> = convert ts (out @ postfix_e e @ emitted_t t) (pending_t t @ Str ''-'' # ops)"
    using Sub.IH(2) [OF _ b, of ts "out @ postfix_e e"] Sub.prems by simp
  finally show ?case by simp
next
  case (Atom f)
  then show ?case by simp
next
  case (Mul t f)
  have "convert (tokens_t (Mul t f) @ ts) out ops =
        convert (Str ''*'' # tokens_f f @ ts) (out @ emitted_t t) (pending_t t @ ops)"
    using Mul.IH(1) [of ops "Str ''*'' # tokens_f f @ ts" out] Mul.prems by simp
  also have "\<dots> = convert (tokens_f f @ ts) (out @ postfix_t t) (Str ''*'' # ops)"
    using Mul.prems(2) prec_pending_t [of _ t]
    by (subst convert_operator) (auto simp: postfix_t_split getPrecedence_def)
  also have "\<dots> = convert ts (out @ postfix_t t @ postfix_f f) (Str ''*'' # ops)"
    using Mul.IH(2) [of ts "out @ postfix_t t" "Str ''*'' # ops"] Mul.prems by simp
  finally show ?case by simp
next
  case (Div t f)
  have "convert (tokens_t (Div t f) @ ts) out ops =
        convert (Str ''/'' # tokens_f f @ ts) (out @ emitted_t t) (pending_t t @ ops)"
    using Div.IH(1) [of ops "Str ''/'' # tokens_f f @ ts" out] Div.prems by simp
  also have "\<dots> = convert (tokens_f f @ ts) (out @ postfix_t t) (Str ''/'' # ops)"
    using Div.prems(2) prec_pending_t [of _ t]
    by (subst convert_operator) (auto simp: postfix_t_split getPrecedence_def)
  also have "\<dots> = convert ts (out @ postfix_t t @ postfix_f f) (Str ''/'' # ops)"
    using Div.IH(2) [of ts "out @ postfix_t t" "Str ''/'' # ops"] Div.prems by simp
  finally show ?case by simp
next
  case (Lit n)
  then show ?case by (simp add: convert_number del: convert.simps)
next
  case (Paren e)
  have b: "below 1 (Str ''('' # ops)" by (simp add: below_def getPrecedence_def)
  have np: "Str ''('' \<notin> set (pending_e e)"
    using prec_pending_e [of "Str ''(''" e] by (auto simp: getPrecedence_def)
  have "convert (tokens_f (Paren e) @ ts) out ops =
        convert (tokens_e e @ Str '')'' # ts) out (Str ''('' # ops)"
    by (simp add: convert_lparen del: convert.simps)
  also have "\<dots> = convert (Str '')'' # ts) (out @ emitted_e e) (pending_e e @ Str ''('' # ops)"
    using Paren.IH [OF _ b, of "Str '')'' # ts" out] Paren.prems by simp
  also have "\<dots> = convert ts (out @ postfix_e e) ops"
    using np by (simp add: convert_rparen postfix_e_split del: convert.simps)
  finally show ?case by simp
qed

lemma evaluate_number:
  "is_number n \<Longrightarrow> evaluate (Str n # ts) stack = evaluate ts (Str n # stack)"
  using number_not_NaN [of n] by (simp add: push_def del: isNaN.simps)

lemma evaluate_operator:
  "evaluate (Str ''+'' # ts) (bv # av # stack) =
     evaluate ts (NumStr (js_add (parseFloat av) (parseFloat bv)) # stack)"
  "evaluate (Str ''-'' # ts) (bv # av # stack) =
     evaluate ts (NumStr (js_sub (parseFloat av) (parseFloat bv)) # stack)"
  "evaluate (Str ''*'' # ts) (bv # av # stack) =
     evaluate ts (NumStr (js_mul (parseFloat av) (parseFloat bv)) # stack)"
  "evaluate (Str ''/'' # ts) (bv # av # stack) =
     evaluate ts (NumStr (js_div (parseFloat av) (parseFloat bv)) # stack)"
  by (simp_all add: isNaN_operators apply_operator_def push_def del: isNaN.simps)

lemma evaluate_postfix:
  "wf_e e \<Longrightarrow> no_negative_zero_e e \<Longrightarrow> \<exists>v. parseFloat v = value_e e \<and>
     (\<forall>ts stack. evaluate (postfix_e e @ ts) stack = evaluate ts (v # stack))"
  "wf_t t \<Longrightarrow> no_negative_zero_t t \<Longrightarrow> \<exists>v. parseFloat v = value_t t \<and>
     (\<forall>ts stack. evaluate (postfix_t t @ ts) stack = evaluate ts (v # stack))"
  "wf_f f \<Longrightarrow> no_negative_zero_f f \<Longrightarrow> \<exists>v. parseFloat v = value_f f \<and>
     (\<forall>ts stack. evaluate (postfix_f f @ ts) stack = evaluate ts (v # stack))"
proof (induction e and t and f)
  case (Lit n)
  then have "parseFloat (Str n) = value_f (Lit n) \<and>
     (\<forall>ts stack. evaluate (postfix_f (Lit n) @ ts) stack = evaluate ts (Str n # stack))"
    using parseFloat_number [of n]
    by (simp add: evaluate_number del: evaluate.simps parseFloat.simps)
  then show ?case by blast
next
  case (Add e t)
  then obtain a b where
    a: "parseFloat a = value_e e"
      "\<And>ts stack. evaluate (postfix_e e @ ts) stack = evaluate ts (a # stack)"
    and b: "parseFloat b = value_t t"
      "\<And>ts stack. evaluate (postfix_t t @ ts) stack = evaluate ts (b # stack)"
    by auto
  from Add.prems have nz: "js_add (value_e e) (value_t t) \<noteq> NegZero" by simp
  have "parseFloat (NumStr (js_add (value_e e) (value_t t))) = value_e (Add e t) \<and>
     (\<forall>ts stack. evaluate (postfix_e (Add e t) @ ts) stack =
        evaluate ts (NumStr (js_add (value_e e) (value_t t)) # stack))"
    by (simp add: a b nz evaluate_operator del: evaluate.simps)
  then show ?case by blast
next
  case (Sub e t)
  then obtain a b where
    a: "parseFloat a = value_e e"
      "\<And>ts stack. evaluate (postfix_e e @ ts) stack = evaluate ts (a # stack)"
    and b: "parseFloat b = value_t t"
      "\<And>ts stack. evaluate (postfix_t t @ ts) stack = evaluate ts (b # stack)"
    by auto
  from Sub.prems have nz: "js_sub (value_e e) (value_t t) \<noteq> NegZero" by simp
  have "parseFloat (NumStr (js_sub (value_e e) (value_t t))) = value_e (Sub e t) \<and>
     (\<forall>ts stack. evaluate (postfix_e (Sub e t) @ ts) stack =
        evaluate ts (NumStr (js_sub (value_e e) (value_t t)) # stack))"
    by (simp add: a b nz evaluate_operator del: evaluate.simps)
  then show ?case by blast
next
  case (Mul t f)
  then obtain a b where
    a: "parseFloat a = value_t t"
      "\<And>ts stack. evaluate (postfix_t t @ ts) stack = evaluate ts (a # stack)"
    and b: "parseFloat b = value_f f"
      "\<And>ts stack. evaluate (postfix_f f @ ts) stack = evaluate ts (b # stack)"
    by auto
  from Mul.prems have nz: "js_mul (value_t t) (value_f f) \<noteq> NegZero" by simp
  have "parseFloat (NumStr (js_mul (value_t t) (value_f f))) = value_t (Mul t f) \<and>
     (\<forall>ts stack. evaluate (postfix_t (Mul t f) @ ts) stack =
        evaluate ts (NumStr (js_mul (value_t t) (value_f f)) # stack))"
    by (simp add: a b nz evaluate_operator del: evaluate.simps)
  then show ?case by blast
next
  case (Div t f)
  then obtain a b where
    a: "parseFloat a = value_t t"
      "\<And>ts stack. evaluate (postfix_t t @ ts) stack = evaluate ts (a # stack)"
    and b: "parseFloat b = value_f f"
      "\<And>ts stack. evaluate (postfix_f f @ ts) stack = evaluate ts (b # stack)"
    by auto
  from Div.prems have nz: "js_div (value_t t) (value_f f) \<noteq> NegZero" by simp
  have "parseFloat (NumStr (js_div (value_t t) (value_f f))) = value_t (Div t f) \<and>
     (\<forall>ts stack. evaluate (postfix_t (Div t f) @ ts) stack =
        evaluate ts (NumStr (js_div (value_t t) (value_f f)) # stack))"
    by (simp add: a b nz evaluate_operator del: evaluate.simps)
  then show ?case by blast
qed simp_all

subsection \<open>The converter on unclosed parentheses\<close>

lemma pop_to_paren_found:
  "Str ''('' \<in> set ops \<Longrightarrow>
   pop_to_paren out ops =
     Some (out @ takeWhile (\<lambda>v. v \<noteq> Str ''('') ops, dropWhile (\<lambda>v. v \<noteq> Str ''('') ops)"
  by (induction ops arbitrary: out) (auto simp: pop_to_paren_Cons)

lemma lparens_takeWhile: "lparens (takeWhile (\<lambda>v. v \<noteq> Str ''('') ops) = 0"
  by (induction ops) auto

lemma lparens_dropWhile:
  "Str ''('' \<in> set ops \<Longrightarrow>
   \<exists>rest. dropWhile (\<lambda>v. v \<noteq> Str ''('') ops = Str ''('' # rest \<and> lparens ops = Suc (lparens rest)"
  by (induction ops) auto

lemma pop_higher_lparens:
  "0 < getPrecedence t \<Longrightarrow> pop_higher t out ops = (out', ops') \<Longrightarrow>
   lparens out' = lparens out \<and> lparens ops' = lparens ops"
proof (induction ops arbitrary: out)
  case Nil
  then show ?case by simp
next
  case (Cons v ops)
  show ?case
  proof (cases "getPrecedence t \<le> getPrecedence v")
    case True
    with Cons.prems have v: "v \<noteq> Str ''(''" by (auto simp: getPrecedence_def)
    from True Cons.prems have "pop_higher t (out @ [v]) ops = (out', ops')"
      by (simp add: enqueue_def)
    from Cons.IH [OF Cons.prems(1) this] v show ?thesis by simp
  next
    case False
    with Cons.prems show ?thesis by auto
  qed
qed

lemma convert_matched:
  "\<forall>t \<in> set ts. valid_token t \<Longrightarrow> matched ts (lparens ops) \<Longrightarrow>
   \<exists>out' ops'. convert ts out ops = Some (out', ops') \<and>
     lparens out' + lparens ops' + count_list ts (Str '')'') = lparens out + lparens ops + lparens ts"
proof (induction ts arbitrary: out ops)
  case Nil
  then show ?case by simp
next
  case (Cons t ts)
  from Cons.prems(1) have vt: "valid_token t" and vts: "\<forall>t \<in> set ts. valid_token t"
    by simp_all
  consider (num) "\<not> isNaN t" | (lp) "t = Str ''(''" | (rp) "t = Str '')''"
    | (op) "isNaN t" "t \<noteq> Str ''(''" "t \<noteq> Str '')''"
    by blast
  then show ?case
  proof cases
    case num
    then have ne: "t \<noteq> Str ''(''" "t \<noteq> Str '')''"
      using isNaN_operators by auto
    with Cons.prems(2) have "matched ts (lparens ops)" by simp
    from Cons.IH [OF vts this, of "enqueue out t"] num ne show ?thesis
      by (auto simp: enqueue_def)
  next
    case lp
    with Cons.prems(2) have "matched ts (lparens (push ops t))" by (simp add: push_def)
    from Cons.IH [OF vts this, of out] lp show ?thesis
      by (auto simp: push_def isNaN_operators simp del: isNaN.simps)
  next
    case rp
    with Cons.prems(2) have pos: "0 < lparens ops" and m: "matched ts (lparens ops - 1)"
      by simp_all
    from pos have mem: "Str ''('' \<in> set ops"
      by (metis count_list_0_iff less_numeral_extra(3))
    from lparens_dropWhile [OF mem] obtain rest where
      d: "dropWhile (\<lambda>v. v \<noteq> Str ''('') ops = Str ''('' # rest" and c: "lparens ops = Suc (lparens rest)"
      by blast
    from m c have "matched ts (lparens rest)" by simp
    from Cons.IH [OF vts this, of "out @ takeWhile (\<lambda>v. v \<noteq> Str ''('') ops"]
    show ?thesis
      using rp c by (auto simp: pop_to_paren_found [OF mem] d lparens_takeWhile isNaN_operators
          simp del: isNaN.simps)
  next
    case op
    with vt have prec: "0 < getPrecedence t"
      by (auto simp: valid_token_def getPrecedence_def)
    obtain out1 ops1 where ph: "pop_higher t out ops = (out1, ops1)"
      by (cases "pop_higher t out ops")
    from pop_higher_lparens [OF prec ph]
    have l: "lparens out1 = lparens out" "lparens ops1 = lparens ops" by simp_all
    from Cons.prems(2) op l have "matched ts (lparens (push ops1 t))"
      by (simp add: push_def)
    from Cons.IH [OF vts this, of out1] show ?thesis
      using op l ph by (auto simp: push_def)
  qed
qed

lemma pop_higher_mset:
  "pop_higher t out ops = (out', ops') \<Longrightarrow> mset out' + mset ops' = mset out + mset ops"
proof (induction ops arbitrary: out)
  case Nil
  then show ?case by simp
next
  case (Cons v ops)
  show ?case
  proof (cases "getPrecedence t \<le> getPrecedence v")
    case True
    with Cons.prems have "pop_higher t (out @ [v]) ops = (out', ops')"
      by (simp add: enqueue_def)
    from Cons.IH [OF this] show ?thesis by simp
  next
    case False
    with Cons.prems show ?thesis by auto
  qed
qed

lemma mset_takeWhile_dropWhile: "mset (takeWhile P xs) + mset (dropWhile P xs) = mset xs"
  by (metis mset_append takeWhile_dropWhile_id)

lemma convert_matched_mset:
  "\<forall>t \<in> set ts. valid_token t \<Longrightarrow> matched ts (lparens ops) \<Longrightarrow>
   \<exists>out' ops'. convert ts out ops = Some (out', ops') \<and>
     mset out' + mset ops' + replicate_mset (count_list ts (Str '')'')) (Str ''('') +
       replicate_mset (count_list ts (Str '')'')) (Str '')'') =
     mset out + mset ops + mset ts"
proof (induction ts arbitrary: out ops)
  case Nil
  then show ?case by simp
next
  case (Cons t ts)
  from Cons.prems(1) have vt: "valid_token t" and vts: "\<forall>t \<in> set ts. valid_token t"
    by simp_all
  consider (num) "\<not> isNaN t" | (lp) "t = Str ''(''" | (rp) "t = Str '')''"
    | (op) "isNaN t" "t \<noteq> Str ''(''" "t \<noteq> Str '')''"
    by blast
  then show ?case
  proof cases
    case num
    then have ne: "t \<noteq> Str ''(''" "t \<noteq> Str '')''"
      using isNaN_operators by auto
    with Cons.prems(2) have "matched ts (lparens ops)" by simp
    from Cons.IH [OF vts this, of "enqueue out t"] num ne show ?thesis
      by (auto simp: enqueue_def)
  next
    case lp
    with Cons.prems(2) have "matched ts (lparens (push ops t))" by (simp add: push_def)
    from Cons.IH [OF vts this, of out] lp show ?thesis
      by (auto simp: push_def isNaN_operators simp del: isNaN.simps)
  next
    case rp
    with Cons.prems(2) have pos: "0 < lparens ops" and m: "matched ts (lparens ops - 1)"
      by simp_all
    from pos have mem: "Str ''('' \<in> set ops"
      by (metis count_list_0_iff less_numeral_extra(3))
    from lparens_dropWhile [OF mem] obtain rest where
      d: "dropWhile (\<lambda>v. v \<noteq> Str ''('') ops = Str ''('' # rest"
      and c: "lparens ops = Suc (lparens rest)"
      by blast
    from m c have "matched ts (lparens rest)" by simp
    from Cons.IH [OF vts this, of "out @ takeWhile (\<lambda>v. v \<noteq> Str ''('') ops"]
    obtain out' ops' where
      r: "convert ts (out @ takeWhile (\<lambda>v. v \<noteq> Str ''('') ops) rest = Some (out', ops')"
      and e: "mset out' + mset ops' + replicate_mset (count_list ts (Str '')'')) (Str ''('') +
          replicate_mset (count_list ts (Str '')'')) (Str '')'') =
        mset (out @ takeWhile (\<lambda>v. v \<noteq> Str ''('') ops) + mset rest + mset ts"
      by blast
    from mset_takeWhile_dropWhile [of "\<lambda>v. v \<noteq> Str ''(''" ops] d
    have s: "mset ops = mset (takeWhile (\<lambda>v. v \<noteq> Str ''('') ops) + mset rest + {#Str ''(''#}"
      by simp
    have "convert (t # ts) out ops = Some (out', ops')"
      using rp r by (simp add: pop_to_paren_found [OF mem] d isNaN_operators del: isNaN.simps)
    moreover have "mset out' + mset ops' +
        replicate_mset (count_list (t # ts) (Str '')'')) (Str ''('') +
        replicate_mset (count_list (t # ts) (Str '')'')) (Str '')'') =
        mset out + mset ops + mset (t # ts)"
      using e s rp by simp
    ultimately show ?thesis by blast
  next
    case op
    obtain out1 ops1 where ph: "pop_higher t out ops = (out1, ops1)"
      by (cases "pop_higher t out ops")
    from op vt have prec: "0 < getPrecedence t"
      by (auto simp: valid_token_def getPrecedence_def)
    from pop_higher_lparens [OF prec ph]
    have l: "lparens ops1 = lparens ops" by simp
    from Cons.prems(2) op l have "matched ts (lparens (push ops1 t))"
      by (simp add: push_def)
    from Cons.IH [OF vts this, of out1] obtain out' ops' where
      r: "convert ts out1 (push ops1 t) = Some (out', ops')"
      and e: "mset out' + mset ops' + replicate_mset (count_list ts (Str '')'')) (Str ''('') +
          replicate_mset (count_list ts (Str '')'')) (Str '')'') =
        mset out1 + mset (push ops1 t) + mset ts"
      by blast
    have "convert (t # ts) out ops = Some (out', ops')"
      using op ph r by simp
    moreover have "mset out' + mset ops' +
        replicate_mset (count_list (t # ts) (Str '')'')) (Str ''('') +
        replicate_mset (count_list (t # ts) (Str '')'')) (Str '')'') =
        mset out + mset ops + mset (t # ts)"
      using e pop_higher_mset [OF ph] op by (simp add: push_def)
    ultimately show ?thesis by blast
  qed
qed

subsection \<open>Conversion and evaluation of a well-formed expression\<close>

lemma convert_to_postfix:
  "wf_e e \<Longrightarrow>
   compute_infix \<lparr>stream = tokens_e e, q = [], s = []\<rparr> =
     Some \<lparr>stream = [], q = postfix_e e, s = []\<rparr>"
proof -
  assume wf: "wf_e e"
  have "convert (tokens_e e @ []) [] [] = convert [] ([] @ emitted_e e) (pending_e e @ [])"
    by (rule convert_expression(1) [OF wf]) (simp add: below_def)
  then show ?thesis
    by (simp add: compute_infix_def drain_append postfix_e_split)
qed

lemma evaluate_to_value:
  "wf_e e \<Longrightarrow> no_negative_zero_e e \<Longrightarrow>
   compute_rpn \<lparr>stream = [], q = postfix_e e, s = []\<rparr> = (value_e e, constructor)"
proof -
  assume wf: "wf_e e" and nz: "no_negative_zero_e e"
  from evaluate_postfix(1) [OF wf nz] obtain v where
    v: "parseFloat v = value_e e"
      "\<And>ts stack. evaluate (postfix_e e @ ts) stack = evaluate ts (v # stack)"
    by auto
  from v(2) [of "[]" "[]"] have "evaluate (postfix_e e) [] = [v]" by simp
  with v(1) show ?thesis
    by (simp add: compute_rpn_def constructor_def)
qed

subsection \<open>The loop of the evaluator\<close>

lemma rpn_loop_Nil: "rpn_loop [] stack = Some stack"
  by (subst rpn_loop.simps) (simp add: isEmpty_def)

lemma rpn_loop_Cons:
  "rpn_loop (t # ts) stack =
     (if \<not> isNaN t then rpn_loop ts (push stack t)
      else rpn_loop ts
        (apply_operator t (parseFloat (fst (pop (snd (pop stack))))) (parseFloat (fst (pop stack)))
           (snd (pop (snd (pop stack))))))"
  by (subst rpn_loop.simps) (simp add: isEmpty_def)

lemma rpn_loop_returns: "rpn_loop ts stack = Some (evaluate ts stack)"
  by (induction ts arbitrary: stack) (simp_all add: rpn_loop_Nil rpn_loop_Cons Let_def)

lemma length_pop: "length (snd (pop stack)) = length stack - 1"
  by (cases stack) simp_all

lemma set_pop: "set (snd (pop stack)) \<subseteq> set stack"
  by (cases stack) auto

lemma length_apply_operator:
  "length (apply_operator t a b stack) =
     (if t \<in> {Str ''+'', Str ''-'', Str ''*'', Str ''/''} then length stack + 1 else length stack)"
  by (simp add: apply_operator_def push_def)

lemma evaluate_height: "length (evaluate ts stack) = operand_height ts (length stack)"
proof (induction ts arbitrary: stack)
  case Nil
  then show ?case by simp
next
  case (Cons t ts)
  show ?case
  proof (cases "isNaN t")
    case False
    then show ?thesis by (simp add: Cons.IH push_def)
  next
    case True
    then show ?thesis
      by (auto simp: Cons.IH Let_def length_apply_operator length_pop numeral_2_eq_2
          simp del: isNaN.simps)
  qed
qed

lemma undefined_not_pushed:
  "Undefined \<notin> set stack \<Longrightarrow> Undefined \<notin> set (evaluate ts stack)"
proof (induction ts arbitrary: stack)
  case Nil
  then show ?case by simp
next
  case (Cons t ts)
  show ?case
  proof (cases "isNaN t")
    case False
    then have "t \<noteq> Undefined" by auto
    with Cons.prems have "Undefined \<notin> set (push stack t)" by (simp add: push_def)
    from Cons.IH [OF this] False show ?thesis by simp
  next
    case True
    from Cons.prems set_pop [of stack] set_pop [of "snd (pop stack)"]
    have "Undefined \<notin> set (snd (pop (snd (pop stack))))" by blast
    then have "Undefined \<notin> set (apply_operator t
        (parseFloat (fst (pop (snd (pop stack))))) (parseFloat (fst (pop stack)))
        (snd (pop (snd (pop stack)))))"
      by (simp add: apply_operator_def push_def)
    from Cons.IH [OF this] True show ?thesis by (simp add: Let_def del: isNaN.simps)
  qed
qed

section \<open>Properties of the calculator\<close>

text \<open>
  C1, as amended. For every token sequence that is a well-formed infix expression (number
  tokens, the binary operators \<open>+\<close>, \<open>-\<close>, \<open>*\<close>, \<open>/\<close> and balanced
  parentheses), \<open>compute_infix\<close> returns with the postfix sequence of the expression in
  the output queue; and when no operation of the reference evaluation gives the negative
  zero, \<open>compute_rpn\<close> on that queue returns the value that the reference evaluator
  gives the expression.
\<close>

theorem infix_then_rpn_is_reference_value:
  "wf_e e \<Longrightarrow> no_negative_zero_e e \<Longrightarrow>
   compute_infix \<lparr>stream = tokens_e e, q = [], s = []\<rparr> =
     Some \<lparr>stream = [], q = postfix_e e, s = []\<rparr> \<and>
   compute_rpn \<lparr>stream = [], q = postfix_e e, s = []\<rparr> = (value_e e, constructor)"
  by (simp add: convert_to_postfix evaluate_to_value)

text \<open>The expression \<open>2*(3+4)-5\<close>, whose value is 9.\<close>

theorem infix_then_rpn_is_reference_value_witness:
  "wf_e (Sub (Single (Mul (Atom (Lit ''2''))
            (Paren (Add (Single (Atom (Lit ''3''))) (Atom (Lit ''4''))))))
          (Atom (Lit ''5''))) \<and>
   no_negative_zero_e (Sub (Single (Mul (Atom (Lit ''2''))
            (Paren (Add (Single (Atom (Lit ''3''))) (Atom (Lit ''4''))))))
          (Atom (Lit ''5''))) \<and>
   compute_infix \<lparr>stream = [Str ''2'', Str ''*'', Str ''('', Str ''3'', Str ''+'', Str ''4'',
       Str '')'', Str ''-'', Str ''5''], q = [], s = []\<rparr> =
     Some \<lparr>stream = [], q = [Str ''2'', Str ''3'', Str ''4'', Str ''+'', Str ''*'', Str ''5'',
       Str ''-''], s = []\<rparr> \<and>
   compute_rpn \<lparr>stream = [], q = [Str ''2'', Str ''3'', Str ''4'', Str ''+'', Str ''*'',
       Str ''5'', Str ''-''], s = []\<rparr> = (Fin 9, constructor)"
proof -
  have wf: "wf_e (Sub (Single (Mul (Atom (Lit ''2''))
            (Paren (Add (Single (Atom (Lit ''3''))) (Atom (Lit ''4''))))))
          (Atom (Lit ''5'')))"
    by code_simp
  have nz: "no_negative_zero_e (Sub (Single (Mul (Atom (Lit ''2''))
            (Paren (Add (Single (Atom (Lit ''3''))) (Atom (Lit ''4''))))))
          (Atom (Lit ''5'')))"
    by code_simp
  have v: "value_e (Sub (Single (Mul (Atom (Lit ''2''))
            (Paren (Add (Single (Atom (Lit ''3''))) (Atom (Lit ''4''))))))
          (Atom (Lit ''5''))) = Fin 9"
    by code_simp
  from infix_then_rpn_is_reference_value [OF wf nz] wf nz show ?thesis
    unfolding v by simp
qed

text \<open>
  The tokens \<open>1 / ( 0 * ( 0 - 1 ) )\<close>: the product is the negative zero, which the
  evaluator pushes as the string \<open>0\<close> and reads back as the positive zero. The evaluator
  returns the positive infinity, the reference evaluator the negative one.
\<close>

theorem negative_zero_counterexample:
  "wf_e (Single (Div (Atom (Lit ''1'')) (Paren (Single (Mul (Atom (Lit ''0''))
      (Paren (Sub (Single (Atom (Lit ''0''))) (Atom (Lit ''1''))))))))) \<and>
   tokens_e (Single (Div (Atom (Lit ''1'')) (Paren (Single (Mul (Atom (Lit ''0''))
      (Paren (Sub (Single (Atom (Lit ''0''))) (Atom (Lit ''1''))))))))) =
     [Str ''1'', Str ''/'', Str ''('', Str ''0'', Str ''*'', Str ''('', Str ''0'', Str ''-'',
      Str ''1'', Str '')'', Str '')''] \<and>
   compute_infix \<lparr>stream = [Str ''1'', Str ''/'', Str ''('', Str ''0'', Str ''*'', Str ''('',
       Str ''0'', Str ''-'', Str ''1'', Str '')'', Str '')''], q = [], s = []\<rparr> =
     Some \<lparr>stream = [], q = [Str ''1'', Str ''0'', Str ''0'', Str ''1'', Str ''-'', Str ''*'',
       Str ''/''], s = []\<rparr> \<and>
   compute_rpn \<lparr>stream = [], q = [Str ''1'', Str ''0'', Str ''0'', Str ''1'', Str ''-'',
       Str ''*'', Str ''/''], s = []\<rparr> = (PInf, constructor) \<and>
   value_e (Single (Div (Atom (Lit ''1'')) (Paren (Single (Mul (Atom (Lit ''0''))
      (Paren (Sub (Single (Atom (Lit ''0''))) (Atom (Lit ''1''))))))))) = NInf"
  by code_simp

text \<open>
  C2. The conversion \<open>compute_infix\<close> is claimed to end on every finite token sequence,
  also on one with a \<open>)\<close> that has no \<open>(\<close> on the operator stack. On the single token
  \<open>)\<close> it does not return, and so \<open>calculate\<close> does not return on the text \<open>)\<close>.
\<close>

theorem compute_infix_unmatched_rparen_diverges:
  "compute_infix \<lparr>stream = [Str '')''], q = [], s = []\<rparr> = None \<and>
   calculate constructor '')'' = None"
  by (simp add: calculate_def makeString_rparen compute_infix_def pop_to_paren_Nil
      isNaN_operators del: isNaN.simps)

text \<open>
  C3, as amended. When the input tokens are consumed and a \<open>(\<close> remains on the
  operator stack, the converter raises no error: for every sequence of valid tokens in
  which each \<open>)\<close> closes a \<open>(\<close>, \<open>compute_infix\<close> returns with the stream and the
  operator stack empty, and the output queue holds every token that was in the output
  queue, on the stack or in the stream, each \<open>(\<close> that stayed open included, but for one
  \<open>(\<close> and one \<open>)\<close> for each \<open>)\<close> of the stream.
\<close>

theorem unclosed_lparen_goes_to_output:
  "\<forall>t \<in> set (stream sy). valid_token t \<Longrightarrow> matched (stream sy) (lparens (s sy)) \<Longrightarrow>
   \<exists>sy'. compute_infix sy = Some sy' \<and> stream sy' = [] \<and> s sy' = [] \<and>
     mset (q sy') + replicate_mset (count_list (stream sy) (Str '')'')) (Str ''('') +
       replicate_mset (count_list (stream sy) (Str '')'')) (Str '')'') =
     mset (q sy) + mset (s sy) + mset (stream sy)"
proof -
  assume a: "\<forall>t \<in> set (stream sy). valid_token t"
    and b: "matched (stream sy) (lparens (s sy))"
  from convert_matched_mset [OF a b, of "q sy"] obtain out' ops' where
    "convert (stream sy) (q sy) (s sy) = Some (out', ops')"
    "mset out' + mset ops' + replicate_mset (count_list (stream sy) (Str '')'')) (Str ''('') +
       replicate_mset (count_list (stream sy) (Str '')'')) (Str '')'') =
     mset (q sy) + mset (s sy) + mset (stream sy)"
    by blast
  then show ?thesis
    by (simp add: compute_infix_def drain_append)
qed

text \<open>The tokens \<open>( 1 + 2\<close>.\<close>

theorem unclosed_lparen_goes_to_output_witness:
  "matched [Str ''('', Str ''1'', Str ''+'', Str ''2''] 0 \<and>
   (\<exists>sy'. compute_infix \<lparr>stream = [Str ''('', Str ''1'', Str ''+'', Str ''2''], q = [], s = []\<rparr>
       = Some sy' \<and> stream sy' = [] \<and> s sy' = [] \<and>
       mset (q sy') = mset [Str ''('', Str ''1'', Str ''+'', Str ''2''])"
proof -
  have v: "\<forall>t \<in> set (stream \<lparr>stream = [Str ''('', Str ''1'', Str ''+'', Str ''2''], q = [], s = []\<rparr>).
      valid_token t"
  proof -
    have "\<not> isNaN (Str ''1'')" "\<not> isNaN (Str ''2'')" by code_simp+
    then show ?thesis by (simp add: valid_token_def del: isNaN.simps)
  qed
  have m: "matched (stream \<lparr>stream = [Str ''('', Str ''1'', Str ''+'', Str ''2''], q = [], s = []\<rparr>)
      (lparens (s \<lparr>stream = [Str ''('', Str ''1'', Str ''+'', Str ''2''], q = [], s = []\<rparr>))"
    by simp
  from unclosed_lparen_goes_to_output [OF v m] v m show ?thesis
    by simp
qed

text \<open>
  On the tokens \<open>( 1 + 2\<close> the conversion returns, with the output \<open>1 2 + (\<close>. The
  text \<open>(1+2\<close> itself does not reach the converter, the tokenizer throws a TypeError on
  it; the text \<open>(1+23\<close> does, and \<open>calculate\<close> returns NaN for it.
\<close>

theorem unclosed_lparen_counterexample:
  "compute_infix \<lparr>stream = [Str ''('', Str ''1'', Str ''+'', Str ''2''], q = [], s = []\<rparr> =
     Some \<lparr>stream = [], q = [Str ''1'', Str ''2'', Str ''+'', Str ''(''], s = []\<rparr> \<and>
   calculate constructor ''(1+2'' = Some (Inl TypeError) \<and>
   makeString constructor ''(1+23'' =
     Inr \<lparr>stream = [Str ''('', Str ''1'', Str ''+'', Str ''23''], q = [], s = []\<rparr> \<and>
   calculate constructor ''(1+23'' = Some (Inr (NaN, constructor))"
  by code_simp

text \<open>
  C4, as amended. In the evaluator a pop from an empty operand stack gives
  \<open>undefined\<close>, which \<open>parseFloat\<close> reads as NaN, and no error is raised: an operator
  that finds no operand, or one operand only, pushes NaN.
\<close>

theorem operator_without_operands_gives_NaN:
  "t \<in> {Str ''+'', Str ''-'', Str ''*'', Str ''/''} \<Longrightarrow>
   evaluate (t # ts) [] = evaluate ts [NumStr NaN] \<and>
   evaluate (t # ts) [v] = evaluate ts [NumStr NaN]"
  by (auto simp: isNaN_operators apply_operator_def push_def NaN_operand simp del: isNaN.simps)

theorem operator_without_operands_gives_NaN_witness:
  "Str ''+'' \<in> {Str ''+'', Str ''-'', Str ''*'', Str ''/''} \<and>
   evaluate [Str ''+''] [] = [NumStr NaN] \<and>
   evaluate [Str ''+''] [Str ''1''] = [NumStr NaN]"
  using operator_without_operands_gives_NaN [of "Str ''+''" "[]" "Str ''1''"]
  by simp

text \<open>The text \<open>+1\<close> makes the tokenizer throw a TypeError, so the evaluator is not
  reached; on the postfix sequence \<open>1 +\<close> of the tokens \<open>+ 1\<close> the evaluator returns
  NaN.\<close>

theorem leading_operator_counterexample:
  "calculate constructor ''+1'' = Some (Inl TypeError) \<and>
   compute_infix \<lparr>stream = [Str ''+'', Str ''1''], q = [], s = []\<rparr> =
     Some \<lparr>stream = [], q = [Str ''1'', Str ''+''], s = []\<rparr> \<and>
   compute_rpn \<lparr>stream = [], q = [Str ''1'', Str ''+''], s = []\<rparr> = (NaN, constructor)"
  by code_simp

text \<open>
  C5, as amended. \<open>makeString\<close> raises no error for a character that is neither a digit
  nor one of \<open>+ - * / ( )\<close>: when it returns, every character of the input that
  \<open>isNaN\<close> does not take for a number is a token of the stream, a string of that one
  character.
\<close>

theorem unrecognized_character_becomes_token:
  "makeString sy input = Inr sy' \<Longrightarrow> c \<in> set input \<Longrightarrow> isNaN (Str [c]) \<Longrightarrow>
   Str [c] \<in> set (stream sy')"
proof -
  assume a: "makeString sy input = Inr sy'" and b: "c \<in> set input" and c: "isNaN (Str [c])"
  from a obtain temp where t: "scan input (replicate (length input) (Str [])) 0 = Inr temp"
    and st: "stream sy' = enqueue_all (stream sy) temp"
    by (auto simp: makeString_def split: sum.splits)
  from scan_operator_token [OF t b c] obtain i where "array_get temp i = Str [c]" ..
  then have "Str [c] \<in> set temp"
    by (metis array_get_def jsval.distinct(1) nth_mem)
  with st show ?thesis by (simp add: set_enqueue_all)
qed

theorem unrecognized_character_becomes_token_witness:
  "makeString constructor ''1a'' = Inr \<lparr>stream = [Str ''1'', Str ''a''], q = [], s = []\<rparr> \<and>
   CHR ''a'' \<in> set ''1a'' \<and> isNaN (Str ''a'') \<and>
   Str ''a'' \<in> set (stream \<lparr>stream = [Str ''1'', Str ''a''], q = [], s = []\<rparr>)"
proof -
  have 1: "makeString constructor ''1a'' =
      Inr \<lparr>stream = [Str ''1'', Str ''a''], q = [], s = []\<rparr>"
    by code_simp
  have 2: "CHR ''a'' \<in> set ''1a''" by simp
  have 3: "isNaN (Str ''a'')" by code_simp
  from unrecognized_character_becomes_token [OF 1 2 3] 1 2 3 show ?thesis by blast
qed

text \<open>The letter \<open>a\<close> becomes a token, and a space joins the digits around it.\<close>

theorem unrecognized_character_counterexample:
  "makeString constructor ''1a'' = Inr \<lparr>stream = [Str ''1'', Str ''a''], q = [], s = []\<rparr> \<and>
   makeString constructor ''1 2'' = Inr \<lparr>stream = [Str ''1 2''], q = [], s = []\<rparr>"
  by code_simp

text \<open>
  C6. The text \<open>5/0\<close> evaluates to positive infinity and no error is raised. In the
  evaluator the token \<open>/\<close> divides the second value from the top by the top of the
  stack, and a division by zero gives a value that is not finite: an infinity, or NaN for
  zero over zero.
\<close>

theorem division_by_zero_not_finite:
  "calculate constructor ''5/0'' = Some (Inr (PInf, constructor)) \<and>
   evaluate (Str ''/'' # ts) (bv # av # stack) =
     evaluate ts (NumStr (js_div (parseFloat av) (parseFloat bv)) # stack) \<and>
   \<not> is_finite (js_div a (Fin 0)) \<and>
   js_div (Fin 5) (Fin 0) = PInf \<and> js_div (Fin (- 5)) (Fin 0) = NInf \<and>
   js_div (Fin 0) (Fin 0) = NaN"
proof -
  have "calculate constructor ''5/0'' = Some (Inr (PInf, constructor))"
    by code_simp
  moreover have "evaluate (Str ''/'' # ts) (bv # av # stack) =
      evaluate ts (NumStr (js_div (parseFloat av) (parseFloat bv)) # stack)"
    by (simp add: isNaN_operators apply_operator_def push_def del: isNaN.simps)
  moreover have "\<not> is_finite (js_div a (Fin 0))"
    by (cases a) (simp_all add: js_div_def is_zero_def signed_inf_def)
  ultimately show ?thesis
    by (simp add: js_div_def is_zero_def signed_inf_def)
qed

text \<open>
  C7. The text \<open>8-3-2\<close> evaluates to 3: the converter writes \<open>8 3 - 2 -\<close>, because an
  operator on the stack whose precedence equals that of the incoming operator is popped
  before the incoming one is pushed, and the evaluator takes the top of its stack as the
  right operand and the value below as the left one.
\<close>

theorem left_associative_8_3_2:
  "calculate constructor ''8-3-2'' = Some (Inr (Fin 3, constructor)) \<and>
   makeString constructor ''8-3-2'' =
     Inr \<lparr>stream = [Str ''8'', Str ''-'', Str ''3'', Str ''-'', Str ''2''], q = [], s = []\<rparr> \<and>
   compute_infix \<lparr>stream = [Str ''8'', Str ''-'', Str ''3'', Str ''-'', Str ''2''], q = [], s = []\<rparr> =
     Some \<lparr>stream = [], q = [Str ''8'', Str ''3'', Str ''-'', Str ''2'', Str ''-''], s = []\<rparr> \<and>
   pop_higher (Str ''-'') out (Str ''-'' # ops) = pop_higher (Str ''-'') (out @ [Str ''-'']) ops \<and>
   evaluate (Str ''-'' # ts) (bv # av # stack) =
     evaluate ts (NumStr (js_sub (parseFloat av) (parseFloat bv)) # stack)"
proof -
  have "calculate constructor ''8-3-2'' = Some (Inr (Fin 3, constructor))"
    by code_simp
  moreover have "makeString constructor ''8-3-2'' =
     Inr \<lparr>stream = [Str ''8'', Str ''-'', Str ''3'', Str ''-'', Str ''2''], q = [], s = []\<rparr>"
    by code_simp
  moreover have "compute_infix \<lparr>stream = [Str ''8'', Str ''-'', Str ''3'', Str ''-'', Str ''2''], q = [], s = []\<rparr> =
     Some \<lparr>stream = [], q = [Str ''8'', Str ''3'', Str ''-'', Str ''2'', Str ''-''], s = []\<rparr>"
    by code_simp
  moreover have "pop_higher (Str ''-'') out (Str ''-'' # ops) =
      pop_higher (Str ''-'') (out @ [Str ''-'']) ops"
    by (simp add: getPrecedence_def enqueue_def)
  moreover have "evaluate (Str ''-'' # ts) (bv # av # stack) =
      evaluate ts (NumStr (js_sub (parseFloat av) (parseFloat bv)) # stack)"
    by (simp add: isNaN_operators apply_operator_def push_def del: isNaN.simps)
  ultimately show ?thesis
    by blast
qed

text \<open>
  C8. For the text \<open>12+3*(4-1)\<close> the tokenizer gives the tokens
  \<open>12 + 3 * ( 4 - 1 )\<close>, with the adjacent digits 1 and 2 in one token; the converter
  gives the postfix sequence \<open>12 3 4 1 - * +\<close>; and the evaluator returns 21.
\<close>

theorem example_12_plus_3_times_paren:
  "makeString constructor ''12+3*(4-1)'' =
     Inr \<lparr>stream = [Str ''12'', Str ''+'', Str ''3'', Str ''*'', Str ''('', Str ''4'',
                    Str ''-'', Str ''1'', Str '')''], q = [], s = []\<rparr> \<and>
   compute_infix \<lparr>stream = [Str ''12'', Str ''+'', Str ''3'', Str ''*'', Str ''('', Str ''4'',
                    Str ''-'', Str ''1'', Str '')''], q = [], s = []\<rparr> =
     Some \<lparr>stream = [], q = [Str ''12'', Str ''3'', Str ''4'', Str ''1'', Str ''-'', Str ''*'',
                    Str ''+''], s = []\<rparr> \<and>
   compute_rpn \<lparr>stream = [], q = [Str ''12'', Str ''3'', Str ''4'', Str ''1'', Str ''-'', Str ''*'',
                    Str ''+''], s = []\<rparr> = (Fin 21, constructor) \<and>
   calculate constructor ''12+3*(4-1)'' = Some (Inr (Fin 21, constructor))"
  by code_simp

text \<open>
  C9. After \<open>clear\<close> every buffer of the engine is claimed to be empty. \<open>clear\<close>
  replaces the output queue and the operator stack and leaves the token stream as it was:
  the token that \<open>makeString\<close> put there is still there, and the next conversion reads it.
\<close>

theorem clear_keeps_stream:
  "makeString constructor ''1'' = Inr \<lparr>stream = [Str ''1''], q = [], s = []\<rparr> \<and>
   clear \<lparr>stream = [Str ''1''], q = [], s = []\<rparr> = \<lparr>stream = [Str ''1''], q = [], s = []\<rparr> \<and>
   makeString (clear \<lparr>stream = [Str ''1''], q = [], s = []\<rparr>) ''2'' =
     Inr \<lparr>stream = [Str ''1'', Str ''2''], q = [], s = []\<rparr> \<and>
   stream (clear sy) = stream sy \<and> q (clear sy) = [] \<and> s (clear sy) = []"
proof -
  have "makeString constructor ''1'' = Inr \<lparr>stream = [Str ''1''], q = [], s = []\<rparr>"
    by code_simp
  moreover have "makeString (clear \<lparr>stream = [Str ''1''], q = [], s = []\<rparr>) ''2'' =
     Inr \<lparr>stream = [Str ''1'', Str ''2''], q = [], s = []\<rparr>"
    by code_simp
  ultimately show ?thesis
    by (simp add: clear_def)
qed

text \<open>
  C10. \<open>compute_rpn\<close> returns a number on every queue and never throws. Its loop ends
  on every queue. A pop from the empty operand stack gives \<open>undefined\<close> and leaves the
  stack empty, \<open>parseFloat\<close> of \<open>undefined\<close> is NaN, and a token that is not a number
  and none of the four operators pushes nothing: so the operand stack has, after any
  queue, the height that the tokens give it, \<open>undefined\<close> is never pushed on it, and the
  result is the number that \<open>parseFloat\<close> reads from the top of the stack, or NaN when
  the stack is empty.
\<close>

theorem compute_rpn_never_throws:
  "rpn_loop ts stack = Some (evaluate ts stack) \<and>
   length (evaluate ts stack) = operand_height ts (length stack) \<and>
   (Undefined \<notin> set stack \<longrightarrow> Undefined \<notin> set (evaluate ts stack)) \<and>
   compute_rpn sy =
     (case evaluate (q sy) [] of [] \<Rightarrow> NaN | v # r \<Rightarrow> parseFloat v, sy\<lparr>q := []\<rparr>) \<and>
   pop [] = (Undefined, []) \<and> parseFloat Undefined = NaN \<and>
   (t \<noteq> Str ''+'' \<and> t \<noteq> Str ''-'' \<and> t \<noteq> Str ''*'' \<and> t \<noteq> Str ''/'' \<longrightarrow>
      apply_operator t a b stack = stack) \<and>
   (isNaN t \<longrightarrow>
      evaluate (t # ts) [] = evaluate ts (apply_operator t NaN NaN []) \<and>
      evaluate (t # ts) [v] = evaluate ts (apply_operator t NaN (parseFloat v) []))"
proof -
  have "compute_rpn sy =
     (case evaluate (q sy) [] of [] \<Rightarrow> NaN | v # r \<Rightarrow> parseFloat v, sy\<lparr>q := []\<rparr>)"
    by (cases "evaluate (q sy) []") (simp_all add: compute_rpn_def)
  moreover have "t \<noteq> Str ''+'' \<and> t \<noteq> Str ''-'' \<and> t \<noteq> Str ''*'' \<and> t \<noteq> Str ''/'' \<longrightarrow>
      apply_operator t a b stack = stack"
    by (simp add: apply_operator_def)
  moreover have "isNaN t \<longrightarrow>
      evaluate (t # ts) [] = evaluate ts (apply_operator t NaN NaN []) \<and>
      evaluate (t # ts) [v] = evaluate ts (apply_operator t NaN (parseFloat v) [])"
    by (simp add: Let_def)
  ultimately show ?thesis
    using rpn_loop_returns [of ts stack] evaluate_height [of ts stack]
      undefined_not_pushed [of stack ts]
    by simp
qed

text \<open>The queue \<open>7 ( 2 + 3\<close>: the token \<open>(\<close> takes the 7 away, \<open>+\<close> finds the 2 only,
  and 3 is the result.\<close>

theorem compute_rpn_never_throws_witness:
  "Undefined \<notin> set [Str ''9''] \<and> Str ''('' \<noteq> Str ''+'' \<and> Str ''('' \<noteq> Str ''-'' \<and>
   Str ''('' \<noteq> Str ''*'' \<and> Str ''('' \<noteq> Str ''/'' \<and> isNaN (Str ''('') \<and>
   rpn_loop [Str ''7'', Str ''('', Str ''2'', Str ''+'', Str ''3''] [Str ''9''] =
     Some [Str ''3'', NumStr NaN] \<and>
   evaluate [Str ''7'', Str ''('', Str ''2'', Str ''+'', Str ''3''] [Str ''9''] =
     [Str ''3'', NumStr NaN] \<and>
   operand_height [Str ''7'', Str ''('', Str ''2'', Str ''+'', Str ''3''] 1 = 2 \<and>
   compute_rpn \<lparr>stream = [], q = [Str ''7'', Str ''('', Str ''2'', Str ''+'', Str ''3''], s = []\<rparr> =
     (Fin 3, constructor) \<and>
   apply_operator (Str ''('') NaN NaN [Str ''9''] = [Str ''9'']"
proof -
  have n: "isNaN (Str ''('')" by (rule isNaN_operators)
  have e: "evaluate [Str ''7'', Str ''('', Str ''2'', Str ''+'', Str ''3''] [Str ''9''] =
     [Str ''3'', NumStr NaN]"
    by code_simp
  have c: "compute_rpn \<lparr>stream = [], q = [Str ''7'', Str ''('', Str ''2'', Str ''+'', Str ''3''],
      s = []\<rparr> = (Fin 3, constructor)"
    by code_simp
  from compute_rpn_never_throws [of "[Str ''7'', Str ''('', Str ''2'', Str ''+'', Str ''3'']"
      "[Str ''9'']" "\<lparr>stream = [], q = [Str ''7'', Str ''('', Str ''2'', Str ''+'', Str ''3''],
      s = []\<rparr>" "Str ''(''" NaN NaN "Str ''7''"] n e c
  show ?thesis
    by (simp del: isNaN.simps evaluate.simps operand_height.simps)
qed

end
